theory Spec2Isabelle
  imports Complex_Main
begin

section \<open>The metrics simulator (\<^verbatim>\<open>simulateTraining\<close> in App.tsx)\<close>

text \<open>
  JavaScript numbers are modelled as \<^typ>\<open>real\<close> (metric values) and \<^typ>\<open>nat\<close>
  (the epoch counter, which only ever counts up from 1). The properties below use only
  the order of the numbers, \<open>min\<close>, \<open>max\<close> and the sign of the increments.

  A state setter of React (\<^verbatim>\<open>setTrainingData\<close>, \<^verbatim>\<open>setIsTraining\<close>) only queues
  its update: the component state changes at the render that follows the event handler or
  the interval callback in which the setter was called, and an updater function passed to a
  setter runs at that render, after the body of the callback has finished. One event of the
  model is the handler together with its render.
\<close>

subsection \<open>Data\<close>

text \<open>\<^verbatim>\<open>interface TrainingMetric\<close> of the type declarations, fields in the declared order.\<close>

record TrainingMetric =
  epoch :: nat
  loss :: real
  accuracy :: real
  val_loss :: real
  val_accuracy :: real

text \<open>
  The variables captured by one interval callback: \<^verbatim>\<open>let currentEpoch\<close> and
  \<^verbatim>\<open>const totalEpochs\<close>.
\<close>

record closure =
  currentEpoch :: nat
  totalEpochs :: nat

text \<open>
  The component state that the simulator reads and writes, together with the timer table of
  the event loop: \<open>intervals\<close> maps the handle of every interval that is still set to the
  closure of its callback, \<open>nextHandle\<close> is the handle the next \<^verbatim>\<open>setInterval\<close> returns.
\<close>

record app =
  isTraining :: bool
  trainingData :: "TrainingMetric list"
  intervals :: "nat \<rightharpoonup> closure"
  nextHandle :: nat

text \<open>The state after the first render: \<^verbatim>\<open>useState(false)\<close>, \<^verbatim>\<open>useState([])\<close>, no timer.\<close>

definition init_app :: app where
  "init_app = \<lparr>isTraining = False, trainingData = [], intervals = Map.empty, nextHandle = 1\<rparr>"

text \<open>
  The three results of \<^verbatim>\<open>Math.random()\<close> that one tick consumes, in the order of the
  calls: for the accuracy, for the validation accuracy, for the loss. \<^verbatim>\<open>Math.random()\<close>
  returns a number in \<open>[0, 1)\<close>.
\<close>

type_synonym draws = "real \<times> real \<times> real"

definition valid_draw :: "real \<Rightarrow> bool" where
  "valid_draw r = (0 \<le> r \<and> r < 1)"

fun valid_draws :: "draws \<Rightarrow> bool" where
  "valid_draws (r1, r2, r3) = (valid_draw r1 \<and> valid_draw r2 \<and> valid_draw r3)"

subsection \<open>The updater and the interval callback\<close>

text \<open>
  The function passed to \<^verbatim>\<open>setTrainingData\<close> inside the callback, with the value of
  \<^verbatim>\<open>currentEpoch\<close> it reads and the three draws as arguments.
\<close>

definition updater :: "nat \<Rightarrow> draws \<Rightarrow> TrainingMetric list \<Rightarrow> TrainingMetric list" where
  "updater e d prev =
     (case d of (r1, r2, r3) \<Rightarrow>
        let lastAcc = (if length prev > 0 then accuracy (prev ! (length prev - 1)) else 0.45);
            lastValAcc = (if length prev > 0 then val_accuracy (prev ! (length prev - 1)) else 0.42);
            lastLoss = (if length prev > 0 then loss (prev ! (length prev - 1)) else 1.2);
            newAcc = min 0.98 (lastAcc + r1 * 0.08);
            newValAcc = min 0.95 (lastValAcc + r2 * 0.06);
            newLoss = max 0.1 (lastLoss - r3 * 0.15)
        in prev @ [\<lparr>epoch = e, loss = newLoss, accuracy = newAcc,
                     val_loss = newLoss * 1.1, val_accuracy = newValAcc\<rparr>])"

text \<open>
  One firing of the interval with handle \<open>h\<close>, with the render that follows it. An
  interval that has been cleared never fires. The body of the callback queues the updater,
  tests \<^verbatim>\<open>currentEpoch >= totalEpochs\<close> (clearing the interval and queueing
  \<^verbatim>\<open>setIsTraining(false)\<close> when it holds) and then runs \<^verbatim>\<open>currentEpoch++\<close>. The
  render runs the queued updater, which reads the variable \<^verbatim>\<open>currentEpoch\<close> of the
  closure at that moment: \<open>c1\<close>, the closure after the increment. So the point that a tick
  records carries the epoch \<open>currentEpoch c + 1\<close>.
\<close>

definition intervalCallback :: "nat \<Rightarrow> draws \<Rightarrow> app \<Rightarrow> app" where
  "intervalCallback h d s =
     (case intervals s h of
        None \<Rightarrow> s
      | Some c \<Rightarrow>
          let c1 = c\<lparr>currentEpoch := currentEpoch c + 1\<rparr>;
              s1 = (if currentEpoch c \<ge> totalEpochs c
                    then s\<lparr>intervals := (intervals s)(h := None), isTraining := False\<rparr>
                    else s\<lparr>intervals := (intervals s)(h \<mapsto> c1)\<rparr>)
          in s1\<lparr>trainingData := updater (currentEpoch c1) d (trainingData s1)\<rparr>)"

subsection \<open>Starting a run\<close>

text \<open>
  The body of \<^verbatim>\<open>simulateTraining\<close> with its local constant \<^verbatim>\<open>totalEpochs\<close> as the
  parameter \<open>N\<close>: the two setters, then \<^verbatim>\<open>setInterval\<close>, which registers the callback
  under a fresh handle.
\<close>

definition startRun :: "nat \<Rightarrow> app \<Rightarrow> app" where
  "startRun N s =
     s\<lparr>isTraining := True,
       trainingData := [],
       intervals := (intervals s)(nextHandle s \<mapsto> \<lparr>currentEpoch = 1, totalEpochs = N\<rparr>),
       nextHandle := nextHandle s + 1\<rparr>"

text \<open>\<^verbatim>\<open>simulateTraining\<close> itself: the source fixes \<^verbatim>\<open>totalEpochs = 15\<close>.\<close>

definition simulateTraining :: "app \<Rightarrow> app" where
  "simulateTraining s = startRun 15 s"

text \<open>The interval with handle \<open>h\<close> fires once for every element of the list of draws.\<close>

fun ticks :: "nat \<Rightarrow> draws list \<Rightarrow> app \<Rightarrow> app" where
  "ticks h [] s = s"
| "ticks h (d # ds) s = ticks h ds (intervalCallback h d s)"

subsection \<open>Events\<close>

text \<open>
  What can happen to the simulator: \<^verbatim>\<open>simulateTraining\<close> is called, or the interval with
  a given handle fires.
\<close>

datatype event = Start | Tick nat draws

fun step :: "event \<Rightarrow> app \<Rightarrow> app" where
  "step Start s = simulateTraining s"
| "step (Tick h d) s = intervalCallback h d s"

fun run :: "event list \<Rightarrow> app \<Rightarrow> app" where
  "run [] s = s"
| "run (ev # evs) s = run evs (step ev s)"

fun valid_event :: "event \<Rightarrow> bool" where
  "valid_event Start = True"
| "valid_event (Tick h d) = valid_draws d"





subsection \<open>The emission rule and the properties of a series, as the specification words them\<close>

text \<open>The previous point of a series, when one exists.\<close>

definition previous :: "TrainingMetric list \<Rightarrow> TrainingMetric option" where
  "previous xs = (if xs = [] then None else Some (last xs))"


text \<open>
  The emission rule of the specification: the new point from the previous point, or from the
  seed values \<open>accuracy = 0.45\<close>, \<open>val_accuracy = 0.42\<close>, \<open>loss = 1.2\<close> when there is none,
  and from the three increments \<open>u1\<close>, \<open>u2\<close>, \<open>u3\<close>.
\<close>

definition emission_rule :: "TrainingMetric option \<Rightarrow> nat \<Rightarrow> real \<Rightarrow> real \<Rightarrow> real \<Rightarrow> TrainingMetric" where
  "emission_rule prev e u1 u2 u3 =
     (let acc = (case prev of None \<Rightarrow> 0.45 | Some p \<Rightarrow> accuracy p);
          val = (case prev of None \<Rightarrow> 0.42 | Some p \<Rightarrow> val_accuracy p);
          los = (case prev of None \<Rightarrow> 1.2 | Some p \<Rightarrow> loss p);
          acc' = min 0.98 (acc + u1);
          val' = min 0.95 (val + u2);
          los' = max 0.10 (los - u3)
      in \<lparr>epoch = e, loss = los', accuracy = acc', val_loss = los' * 1.1, val_accuracy = val'\<rparr>)"

text \<open>The bounds that the specification states for a point.\<close>

definition in_bounds :: "TrainingMetric \<Rightarrow> bool" where
  "in_bounds p =
     (0.45 \<le> accuracy p \<and> accuracy p \<le> 0.98 \<and>
      0.42 \<le> val_accuracy p \<and> val_accuracy p \<le> 0.95 \<and>
      loss p \<ge> 0.10 \<and>
      val_loss p = loss p * 1.1)"

text \<open>Point \<open>q\<close> is no worse than point \<open>p\<close>: the accuracies have not fallen, the loss has not risen.\<close>

definition improves :: "TrainingMetric \<Rightarrow> TrainingMetric \<Rightarrow> bool" where
  "improves p q =
     (accuracy p \<le> accuracy q \<and> val_accuracy p \<le> val_accuracy q \<and> loss q \<le> loss p)"

text \<open>The invariant of a series: every point in bounds, every point no worse than the one before.\<close>

definition series_inv :: "TrainingMetric list \<Rightarrow> bool" where
  "series_inv xs =
     ((\<forall>p \<in> set xs. in_bounds p) \<and>
      (\<forall>i. Suc i < length xs \<longrightarrow> improves (xs ! i) (xs ! Suc i)))"


section \<open>The analysis gateway (geminiService.ts)\<close>

text \<open>
  The remote service and the runtime are not part of the repository. The service is a
  parameter: a function from the client and the request to either the cause of the failure
  of the call or the response. \<^verbatim>\<open>JSON.parse\<close> is a parameter as well: a function from the
  text to the parsed value, \<open>None\<close> where \<^verbatim>\<open>JSON.parse\<close> throws its \<^verbatim>\<open>SyntaxError\<close>.
\<close>

subsection \<open>Data\<close>

text \<open>A JSON value, as \<^verbatim>\<open>JSON.parse\<close> returns it; an object keeps its members in order.\<close>

datatype json =
    JNull
  | JBool bool
  | JNumber real
  | JString string
  | JArray "json list"
  | JObject "(string \<times> json) list"

text \<open>
  The part of the schema language that \<^verbatim>\<open>responseSchema\<close> uses: \<^verbatim>\<open>Type.STRING\<close>,
  \<^verbatim>\<open>Type.NUMBER\<close>, \<^verbatim>\<open>Type.ARRAY\<close> with its \<^verbatim>\<open>items\<close>, \<^verbatim>\<open>Type.OBJECT\<close> with its
  \<^verbatim>\<open>properties\<close> and its \<^verbatim>\<open>required\<close> list.
\<close>

datatype schema =
    STRING
  | NUMBER
  | ARRAY schema
  | OBJECT "(string \<times> schema) list" "string list"

text \<open>A part of the contents: \<^verbatim>\<open>{ text }\<close> or \<^verbatim>\<open>{ inlineData: { mimeType, data } }\<close>.\<close>

datatype part = Text string | InlineData string "string option"

text \<open>The contents of a request: a list of parts, or a plain string.\<close>

datatype contents = Parts "part list" | Plain string

record config =
  responseMimeType :: string
  responseSchema :: schema

record request =
  model :: string
  contents :: contents
  config :: "config option"

record client =
  apiKey :: string

text \<open>The response of the service: its \<^verbatim>\<open>text\<close> is a string or \<^verbatim>\<open>undefined\<close>.\<close>

record response =
  "text" :: "string option"

text \<open>
  What an operation of the gateway rejects with: the \<^verbatim>\<open>SyntaxError\<close> that
  \<^verbatim>\<open>JSON.parse\<close> throws, or the cause \<open>e\<close> with which the call of the service failed.
  \<open>CallFailed e\<close> stands for the thrown value \<open>e\<close> itself: the source wraps nothing, the
  constructor only tells the two origins apart.
\<close>

datatype 'e error = SyntaxError | CallFailed 'e

type_synonym 'e service = "client \<Rightarrow> request \<Rightarrow> 'e + response"

text \<open>
  The effects of the gateway: the calls made to the service, in order, and what was written
  with \<^verbatim>\<open>console.error\<close>.
\<close>

record 'e world =
  calls :: "(client \<times> request) list"
  console :: "'e error list"

subsection \<open>Helpers of the runtime\<close>

text \<open>\<^verbatim>\<open>String.prototype.split\<close> with a separator of one character.\<close>

fun split :: "char \<Rightarrow> string \<Rightarrow> string list" where
  "split c [] = [[]]"
| "split c (x # xs) =
     (if x = c then [] # split c xs
      else (case split c xs of [] \<Rightarrow> [[x]] | w # ws \<Rightarrow> (x # w) # ws))"

text \<open>Indexing an array: \<^verbatim>\<open>undefined\<close> out of range.\<close>

definition at_index :: "'a list \<Rightarrow> nat \<Rightarrow> 'a option" where
  "at_index xs i = (if i < length xs then Some (xs ! i) else None)"

text \<open>The conversion of the argument of \<^verbatim>\<open>JSON.parse\<close> to a string.\<close>

fun toString :: "string option \<Rightarrow> string" where
  "toString None = ''undefined''"
| "toString (Some t) = t"

subsection \<open>The client and the call\<close>

text \<open>\<^verbatim>\<open>getAI\<close>: the key is \<^verbatim>\<open>process.env.API_KEY || ''\<close>.\<close>

definition getAI :: "(string \<rightharpoonup> string) \<Rightarrow> client" where
  "getAI env =
     \<lparr>apiKey = (case env ''API_KEY'' of None \<Rightarrow> '''' | Some k \<Rightarrow> if k = '''' then '''' else k)\<rparr>"

text \<open>\<^verbatim>\<open>ai.models.generateContent\<close>: one call of the service, recorded.\<close>

definition generateContent ::
    "'e service \<Rightarrow> client \<Rightarrow> request \<Rightarrow> 'e world \<Rightarrow> ('e + response) \<times> 'e world" where
  "generateContent svc ai req w = (svc ai req, w\<lparr>calls := calls w @ [(ai, req)]\<rparr>)"

subsection \<open>\<^verbatim>\<open>analyzeClassification\<close>\<close>

text \<open>The template literal \<^verbatim>\<open>prompt\<close>.\<close>

definition prompt :: "string \<Rightarrow> string \<Rightarrow> string" where
  \<open>prompt dataset architecture =
     ''\<newline>    You are acting as a Convolutional Neural Network (CNN) model that has just been trained on the "''
     @ dataset @ ''" dataset.\<newline>    The architecture used was: '' @ architecture @
     ''.\<newline>    \<newline>    Analyze the provided image and return a JSON object describing:\<newline>''
     @ ''    1. The predicted label (be specific to the dataset).\<newline>''
     @ ''    2. Confidence level (0 to 1).\<newline>''
     @ ''    3. An explanation of what "features" the CNN layers likely detected (e.g., specific textures, shapes, or patterns characteristic of that class).\<newline>''
     @ ''    4. 3-4 key visual features detected by the hypothetical feature maps.\<newline>''
     @ ''\<newline>    Provide the output strictly in JSON format.\<newline>  ''\<close>

text \<open>The \<^verbatim>\<open>responseSchema\<close> of the request: the declared shape of the answer.\<close>

definition declared_shape :: schema where
  "declared_shape =
     OBJECT [(''label'', STRING), (''confidence'', NUMBER), (''explanation'', STRING),
             (''features'', ARRAY STRING)]
            [''label'', ''confidence'', ''explanation'', ''features'']"

text \<open>The argument of \<^verbatim>\<open>generateContent\<close> in \<^verbatim>\<open>analyzeClassification\<close>.\<close>

definition classification_request :: "string \<Rightarrow> string \<Rightarrow> string \<Rightarrow> request" where
  "classification_request imageData dataset architecture =
     \<lparr>model = ''gemini-3-flash-preview'',
      contents = Parts [Text (prompt dataset architecture),
                        InlineData ''image/jpeg'' (at_index (split (CHR '','') imageData) 1)],
      config = Some \<lparr>responseMimeType = ''application/json'', responseSchema = declared_shape\<rparr>\<rparr>"

text \<open>The \<^verbatim>\<open>catch\<close> block: the error is written to the console and thrown again.\<close>

definition catch_rethrow :: "'e error \<Rightarrow> 'e world \<Rightarrow> ('e error + 'a) \<times> 'e world" where
  "catch_rethrow e w = (Inl e, w\<lparr>console := console w @ [e]\<rparr>)"

definition analyzeClassification ::
    "(string \<Rightarrow> json option) \<Rightarrow> 'e service \<Rightarrow> (string \<rightharpoonup> string) \<Rightarrow>
     string \<Rightarrow> string \<Rightarrow> string \<Rightarrow> 'e world \<Rightarrow> ('e error + json) \<times> 'e world" where
  "analyzeClassification JSON_parse svc env imageData dataset architecture w =
     (let ai = getAI env in
      case generateContent svc ai (classification_request imageData dataset architecture) w of
        (Inl cause, w1) \<Rightarrow> catch_rethrow (CallFailed cause) w1
      | (Inr response, w1) \<Rightarrow>
          (case JSON_parse (toString (text response)) of
             None \<Rightarrow> catch_rethrow SyntaxError w1
           | Some v \<Rightarrow> (Inr v, w1)))"

subsection \<open>\<^verbatim>\<open>generateFinalReport\<close>\<close>

definition report_request :: "string \<Rightarrow> request" where
  "report_request summary =
     \<lparr>model = ''gemini-3-flash-preview'',
      contents = Plain
        (''Write a professional 5-7 line summary report on learning outcomes for a student who completed a CNN Image Classification project with these reflections: ''
         @ summary @
         ''. Focus on concepts like feature extraction, model optimization, and data augmentation.''),
      config = None\<rparr>"

text \<open>No \<^verbatim>\<open>try\<close> here: a failed call rejects the promise with its cause.\<close>

definition generateFinalReport ::
    "'e service \<Rightarrow> (string \<rightharpoonup> string) \<Rightarrow> string \<Rightarrow> 'e world \<Rightarrow>
     ('e error + string option) \<times> 'e world" where
  "generateFinalReport svc env summary w =
     (let ai = getAI env in
      case generateContent svc ai (report_request summary) w of
        (Inl cause, w1) \<Rightarrow> (Inl (CallFailed cause), w1)
      | (Inr response, w1) \<Rightarrow> (Inr (text response), w1))"

subsection \<open>Conformance to the declared shape\<close>

text \<open>
  A value conforms to a schema: it has the type the schema names; the elements of an array
  conform to the schema of the items; an object has every required member, and each member
  that is a declared property conforms to the schema of the property.
\<close>

fun conforms :: "schema \<Rightarrow> json \<Rightarrow> bool" where
  "conforms STRING j = (case j of JString _ \<Rightarrow> True | _ \<Rightarrow> False)"
| "conforms NUMBER j = (case j of JNumber _ \<Rightarrow> True | _ \<Rightarrow> False)"
| "conforms (ARRAY t) j = (case j of JArray xs \<Rightarrow> (\<forall>x \<in> set xs. conforms t x) | _ \<Rightarrow> False)"
| "conforms (OBJECT props required) j =
     (case j of
        JObject kvs \<Rightarrow>
          (\<forall>k \<in> set required. map_of kvs k \<noteq> None) \<and>
          (\<forall>(k, t) \<in> set props. case map_of kvs k of None \<Rightarrow> True | Some v \<Rightarrow> conforms t v)
      | _ \<Rightarrow> False)"

subsection \<open>A mocked service\<close>

text \<open>
  An answer of the service that lacks the required member \<^verbatim>\<open>features\<close>, and the value
  that \<^verbatim>\<open>JSON.parse\<close> returns for it.
\<close>

definition sample_text :: string where
  \<open>sample_text = ''{"label":"cat","confidence":0.87,"explanation":"fur"}''\<close>

definition sample_value :: json where
  "sample_value =
     JObject [(''label'', JString ''cat''), (''confidence'', JNumber 0.87),
              (''explanation'', JString ''fur'')]"

text \<open>
  \<^verbatim>\<open>JSON.parse\<close> on the texts used below: \<open>sample_text\<close> parses to \<open>sample_value\<close>; the
  other texts used (\<^verbatim>\<open>not json\<close>, the empty text, \<^verbatim>\<open>undefined\<close>) are no JSON texts.
\<close>

definition sample_parse :: "string \<Rightarrow> json option" where
  "sample_parse = [sample_text \<mapsto> sample_value]"

text \<open>A world in which nothing has happened yet, and the image of the samples.\<close>

definition w0 :: "string world" where
  "w0 = \<lparr>calls = [], console = []\<rparr>"

definition sample_image :: string where
  "sample_image = ''data:image/jpeg;base64,QUJD''"

section \<open>Properties of the simulator\<close>

subsection \<open>A run, tick by tick\<close>

lemma length_updater: "length (updater e d prev) = Suc (length prev)"
  by (cases d) (simp add: updater_def Let_def)

lemma map_epoch_updater: "map epoch (updater e d prev) = map epoch prev @ [e]"
  by (cases d) (simp add: updater_def Let_def)

lemma intervalCallback_going:
  assumes "intervals s h = Some c" "currentEpoch c < totalEpochs c"
  shows "intervalCallback h d s =
           s\<lparr>trainingData := updater (Suc (currentEpoch c)) d (trainingData s),
             intervals := (intervals s)(h \<mapsto> c\<lparr>currentEpoch := Suc (currentEpoch c)\<rparr>)\<rparr>"
  using assms by (simp add: intervalCallback_def Let_def)

lemma intervalCallback_last:
  assumes "intervals s h = Some c" "totalEpochs c \<le> currentEpoch c"
  shows "intervalCallback h d s =
           s\<lparr>trainingData := updater (Suc (currentEpoch c)) d (trainingData s),
             intervals := (intervals s)(h := None), isTraining := False\<rparr>"
  using assms by (simp add: intervalCallback_def Let_def)

lemma intervalCallback_cleared:
  "intervals s h = None \<Longrightarrow> intervalCallback h d s = s"
  by (simp add: intervalCallback_def)

lemma ticks_cleared: "intervals s h = None \<Longrightarrow> ticks h ds s = s"
  by (induction ds) (simp_all add: intervalCallback_cleared)

lemma ticks_append: "ticks h (ds @ es) s = ticks h es (ticks h ds s)"
  by (induction ds arbitrary: s) simp_all

lemma ticks_going:
  "intervals s h = Some c \<Longrightarrow> currentEpoch c + length ds \<le> totalEpochs c \<Longrightarrow>
   intervals (ticks h ds s) = (intervals s)(h \<mapsto> c\<lparr>currentEpoch := currentEpoch c + length ds\<rparr>) \<and>
   isTraining (ticks h ds s) = isTraining s \<and>
   nextHandle (ticks h ds s) = nextHandle s \<and>
   map epoch (trainingData (ticks h ds s)) =
     map epoch (trainingData s) @ [Suc (currentEpoch c) ..< Suc (currentEpoch c + length ds)]"
proof (induction ds arbitrary: s c)
  case Nil
  then show ?case by (simp add: fun_upd_idem)
next
  case (Cons d ds)
  let ?c = "c\<lparr>currentEpoch := Suc (currentEpoch c)\<rparr>"
  let ?s = "intervalCallback h d s"
  from Cons.prems have lt: "currentEpoch c < totalEpochs c" by simp
  have s1: "?s = s\<lparr>trainingData := updater (Suc (currentEpoch c)) d (trainingData s),
             intervals := (intervals s)(h \<mapsto> ?c)\<rparr>"
    using Cons.prems(1) lt by (rule intervalCallback_going)
  have a: "intervals ?s h = Some ?c" by (simp add: s1)
  have b: "currentEpoch ?c + length ds \<le> totalEpochs ?c" using Cons.prems(2) by simp
  note ih = Cons.IH [OF a b]
  have unf: "ticks h (d # ds) s = ticks h ds ?s" by simp
  have is1: "intervals ?s = (intervals s)(h \<mapsto> ?c)" by (simp add: s1)
  have ts1: "isTraining ?s = isTraining s" by (simp add: s1)
  have ns1: "nextHandle ?s = nextHandle s" by (simp add: s1)
  have es1: "map epoch (trainingData ?s) = map epoch (trainingData s) @ [Suc (currentEpoch c)]"
    by (simp add: s1 map_epoch_updater)
  have cc: "?c\<lparr>currentEpoch := currentEpoch ?c + length ds\<rparr> =
            c\<lparr>currentEpoch := currentEpoch c + length (d # ds)\<rparr>" by simp
  from ih have "intervals (ticks h ds ?s) =
      (intervals ?s)(h \<mapsto> ?c\<lparr>currentEpoch := currentEpoch ?c + length ds\<rparr>)" by blast
  then have i: "intervals (ticks h (d # ds) s) =
      (intervals s)(h \<mapsto> c\<lparr>currentEpoch := currentEpoch c + length (d # ds)\<rparr>)"
    unfolding unf is1 cc by simp
  from ih have t: "isTraining (ticks h (d # ds) s) = isTraining s"
    unfolding unf ts1 by blast
  from ih have n: "nextHandle (ticks h (d # ds) s) = nextHandle s"
    unfolding unf ns1 by blast
  have u: "[Suc (currentEpoch c)] @ [Suc (currentEpoch ?c) ..< Suc (currentEpoch ?c + length ds)] =
        [Suc (currentEpoch c) ..< Suc (currentEpoch c + length (d # ds))]"
  proof -
    have "[Suc (currentEpoch c) ..< Suc (Suc (currentEpoch c + length ds))] =
          Suc (currentEpoch c) # [Suc (Suc (currentEpoch c)) ..< Suc (Suc (currentEpoch c + length ds))]"
      by (rule upt_conv_Cons) simp
    then show ?thesis by (simp del: upt_Suc)
  qed
  from ih have "map epoch (trainingData (ticks h ds ?s)) =
      map epoch (trainingData ?s) @ [Suc (currentEpoch ?c) ..< Suc (currentEpoch ?c + length ds)]"
    by blast
  then have e: "map epoch (trainingData (ticks h (d # ds) s)) =
      map epoch (trainingData s) @ [Suc (currentEpoch c) ..< Suc (currentEpoch c + length (d # ds))]"
    unfolding unf es1 using u by simp
  from i t n e show ?case by blast
qed


lemma ticks_snoc: "ticks h (ds @ [d]) s = intervalCallback h d (ticks h ds s)"
  by (simp add: ticks_append)

lemma startRun_fields:
  "isTraining (startRun N s) = True"
  "trainingData (startRun N s) = []"
  "intervals (startRun N s) = (intervals s)(nextHandle s \<mapsto> \<lparr>currentEpoch = 1, totalEpochs = N\<rparr>)"
  "nextHandle (startRun N s) = Suc (nextHandle s)"
  by (simp_all add: startRun_def)

lemma run_prefix:
  assumes "k < N" "length ds = k"
  shows "intervals (ticks (nextHandle s) ds (startRun N s)) =
           (intervals s)(nextHandle s \<mapsto> \<lparr>currentEpoch = Suc k, totalEpochs = N\<rparr>)"
    and "isTraining (ticks (nextHandle s) ds (startRun N s))"
    and "map epoch (trainingData (ticks (nextHandle s) ds (startRun N s))) = [2 ..< Suc (Suc k)]"
proof -
  let ?h = "nextHandle s" and ?c = "\<lparr>currentEpoch = 1, totalEpochs = N\<rparr>"
  have a: "intervals (startRun N s) ?h = Some ?c" by (simp add: startRun_fields)
  have b: "currentEpoch ?c + length ds \<le> totalEpochs ?c" using assms by simp
  note g = ticks_going [OF a b]
  from g have "intervals (ticks ?h ds (startRun N s)) =
     (intervals (startRun N s))(?h \<mapsto> ?c\<lparr>currentEpoch := currentEpoch ?c + length ds\<rparr>)"
    by blast
  then show "intervals (ticks ?h ds (startRun N s)) =
           (intervals s)(?h \<mapsto> \<lparr>currentEpoch = Suc k, totalEpochs = N\<rparr>)"
    using assms by (simp add: startRun_fields)
  from g have "isTraining (ticks ?h ds (startRun N s)) = isTraining (startRun N s)" by blast
  then show "isTraining (ticks ?h ds (startRun N s))" by (simp add: startRun_fields)
  from g have "map epoch (trainingData (ticks ?h ds (startRun N s))) =
     map epoch (trainingData (startRun N s)) @
       [Suc (currentEpoch ?c) ..< Suc (currentEpoch ?c + length ds)]"
    by blast
  moreover have "Suc (Suc 0) = 2" by simp
  ultimately show "map epoch (trainingData (ticks ?h ds (startRun N s))) = [2 ..< Suc (Suc k)]"
    using assms by (simp add: startRun_fields del: upt_Suc)
qed

text \<open>
  Claim C1 (what the code does at the failing input). For every epoch count \<open>N > 0\<close>, a run
  that is started (in any state \<open>s\<close> of the component) and whose interval fires \<open>N\<close> times
  has recorded exactly \<open>N\<close> points; the run is then marked not running, its interval is
  cleared, and however often the cleared interval is made to fire again (\<open>es\<close>) nothing
  changes any more. The epochs recorded are \<open>2, 3, ..., N + 1\<close>, not \<open>1, 2, ..., N\<close>:
  every point carries the value of \<^verbatim>\<open>currentEpoch\<close> after the increment of its tick.
  \<^verbatim>\<open>simulateTraining\<close> is the instance \<open>N = 15\<close>.
\<close>

theorem run_records_epochs_from_two:
  assumes "0 < N" and "length ds = N"
  shows "map epoch (trainingData (ticks (nextHandle s) ds (startRun N s))) = [2 ..< Suc (Suc N)] \<and>
         length (trainingData (ticks (nextHandle s) ds (startRun N s))) = N \<and>
         \<not> isTraining (ticks (nextHandle s) ds (startRun N s)) \<and>
         intervals (ticks (nextHandle s) ds (startRun N s)) (nextHandle s) = None \<and>
         ticks (nextHandle s) es (ticks (nextHandle s) ds (startRun N s)) =
           ticks (nextHandle s) ds (startRun N s)"
proof -
  let ?h = "nextHandle s"
  from assms obtain ds' d where ds: "ds = ds' @ [d]" and len: "length ds' = N - 1"
    by (cases ds rule: rev_cases) auto
  let ?m = "ticks ?h ds' (startRun N s)"
  let ?c = "\<lparr>currentEpoch = Suc (N - 1), totalEpochs = N\<rparr>"
  have k: "N - 1 < N" using assms(1) by simp
  have i: "intervals ?m ?h = Some ?c" using run_prefix(1) [OF k len, of s] by simp
  have e: "map epoch (trainingData ?m) = [2 ..< Suc (Suc (N - 1))]"
    by (rule run_prefix(3) [OF k len])
  have fin: "ticks ?h ds (startRun N s) =
       ?m\<lparr>trainingData := updater (Suc (currentEpoch ?c)) d (trainingData ?m),
          intervals := (intervals ?m)(?h := None), isTraining := False\<rparr>"
    unfolding ds ticks_snoc by (rule intervalCallback_last [OF i]) simp
  have sn: "Suc (N - 1) = N" using assms(1) by simp
  have e': "map epoch (trainingData ?m) = [2 ..< Suc N]" using e unfolding sn .
  have "map epoch (updater (Suc (currentEpoch ?c)) d (trainingData ?m)) =
        map epoch (trainingData ?m) @ [Suc (currentEpoch ?c)]"
    by (rule map_epoch_updater)
  moreover have "currentEpoch ?c = N" using sn by simp
  ultimately have "map epoch (trainingData (ticks ?h ds (startRun N s))) = [2 ..< Suc N] @ [Suc N]"
    unfolding e' by (simp add: fin del: upt_Suc)
  moreover have "[2 ..< Suc (Suc N)] = [2 ..< Suc N] @ [Suc N]"
    using assms(1) by (simp add: Suc_leI)
  ultimately have 1: "map epoch (trainingData (ticks ?h ds (startRun N s))) = [2 ..< Suc (Suc N)]"
    by simp
  have 2: "\<not> isTraining (ticks ?h ds (startRun N s))" by (simp add: fin)
  have 3: "intervals (ticks ?h ds (startRun N s)) ?h = None" by (simp add: fin)
  have 4: "ticks ?h es (ticks ?h ds (startRun N s)) = ticks ?h ds (startRun N s)"
    using 3 by (rule ticks_cleared)
  have "length (map epoch (trainingData (ticks ?h ds (startRun N s)))) = length [2 ..< Suc (Suc N)]"
    by (simp only: 1)
  then have "length (trainingData (ticks ?h ds (startRun N s))) = Suc (Suc N) - 2"
    by (simp only: length_map length_upt)
  then have 5: "length (trainingData (ticks ?h ds (startRun N s))) = N" by simp
  from 1 2 3 4 5 show ?thesis by blast
qed

text \<open>
  The failing input, which is the instance of the source: fifteen ticks after
  \<^verbatim>\<open>simulateTraining\<close> on the first render record the epochs \<open>2, ..., 16\<close>.
\<close>

theorem run_records_epochs_from_two_witness:
  "0 < (15::nat) \<and> length (replicate 15 ((1/2, 1/2, 1/2)::draws)) = 15 \<and>
   map epoch (trainingData (ticks 1 (replicate 15 (1/2, 1/2, 1/2)) (simulateTraining init_app)))
     = [2 ..< Suc (Suc 15)] \<and>
   length (trainingData (ticks 1 (replicate 15 (1/2, 1/2, 1/2)) (simulateTraining init_app))) = 15 \<and>
   \<not> isTraining (ticks 1 (replicate 15 (1/2, 1/2, 1/2)) (simulateTraining init_app)) \<and>
   intervals (ticks 1 (replicate 15 (1/2, 1/2, 1/2)) (simulateTraining init_app)) 1 = None \<and>
   ticks 1 [(1/2, 1/2, 1/2)] (ticks 1 (replicate 15 (1/2, 1/2, 1/2)) (simulateTraining init_app))
     = ticks 1 (replicate 15 (1/2, 1/2, 1/2)) (simulateTraining init_app)"
proof -
  have n: "0 < (15::nat)" by simp
  have l: "length (replicate 15 ((1/2, 1/2, 1/2)::draws)) = 15" by simp
  have h: "nextHandle init_app = 1" by (simp add: init_app_def)
  have s: "simulateTraining init_app = startRun 15 init_app" by (simp add: simulateTraining_def)
  from run_records_epochs_from_two [OF n l, of init_app "[(1/2, 1/2, 1/2)]"] n l
  show ?thesis unfolding h s by blast
qed

subsection \<open>The emission rule\<close>



lemma updater_emission:
  "updater e (r1, r2, r3) prev =
     prev @ [emission_rule (previous prev) e (r1 * 0.08) (r2 * 0.06) (r3 * 0.15)]"
proof (cases "prev = []")
  case True
  then show ?thesis by (simp add: updater_def emission_rule_def previous_def Let_def)
next
  case False
  then have "prev ! (length prev - 1) = last prev" by (simp add: last_conv_nth)
  with False show ?thesis by (simp add: updater_def emission_rule_def previous_def Let_def)
qed



subsection \<open>Bounds and monotonicity of one emission\<close>

lemma min_keeps_floor: "(b::real) \<le> a \<Longrightarrow> b \<le> c \<Longrightarrow> 0 \<le> u \<Longrightarrow> b \<le> min c (a + u)"
  by simp

lemma min_not_below: "(a::real) \<le> c \<Longrightarrow> 0 \<le> u \<Longrightarrow> a \<le> min c (a + u)"
  by simp

lemma max_not_above: "(f::real) \<le> l \<Longrightarrow> 0 \<le> u \<Longrightarrow> max f (l - u) \<le> l"
  by simp

lemma emission_seed_in_bounds:
  assumes "0 \<le> u1" "0 \<le> u2"
  shows "in_bounds (emission_rule None e u1 u2 u3)"
proof -
  have "(0.45::real) \<le> min 0.98 (0.45 + u1)" using assms(1) by (intro min_keeps_floor) simp_all
  moreover have "(0.42::real) \<le> min 0.95 (0.42 + u2)" using assms(2) by (intro min_keeps_floor) simp_all
  ultimately show ?thesis
    unfolding in_bounds_def emission_rule_def Let_def
    by (simp add: min_def max_def)
qed

lemma emission_next_in_bounds:
  assumes "0 \<le> u1" "0 \<le> u2" "in_bounds p"
  shows "in_bounds (emission_rule (Some p) e u1 u2 u3)"
proof -
  from assms(3) have b: "0.45 \<le> accuracy p" "0.42 \<le> val_accuracy p" by (simp_all add: in_bounds_def)
  have "(0.45::real) \<le> min 0.98 (accuracy p + u1)" using assms(1) b(1) by (intro min_keeps_floor) simp_all
  moreover have "(0.42::real) \<le> min 0.95 (val_accuracy p + u2)" using assms(2) b(2) by (intro min_keeps_floor) simp_all
  ultimately show ?thesis
    unfolding in_bounds_def emission_rule_def Let_def
    by (simp add: min_def max_def)
qed

lemma emission_next_improves:
  assumes "0 \<le> u1" "0 \<le> u2" "0 \<le> u3" "in_bounds p"
  shows "improves p (emission_rule (Some p) e u1 u2 u3)"
proof -
  from assms(4) have b: "accuracy p \<le> 0.98" "val_accuracy p \<le> 0.95" "0.10 \<le> loss p"
    by (simp_all add: in_bounds_def)
  have 1: "accuracy p \<le> min 0.98 (accuracy p + u1)" using b(1) assms(1) by (rule min_not_below)
  have 2: "val_accuracy p \<le> min 0.95 (val_accuracy p + u2)" using b(2) assms(2) by (rule min_not_below)
  have 3: "max 0.10 (loss p - u3) \<le> loss p" using b(3) assms(3) by (rule max_not_above)
  from 1 2 3 show ?thesis by (simp add: improves_def emission_rule_def Let_def)
qed

subsection \<open>The invariant of the series\<close>

lemma series_inv_Nil: "series_inv []"
  by (simp add: series_inv_def)

lemma series_inv_snoc_first: "in_bounds q \<Longrightarrow> series_inv [q]"
  by (simp add: series_inv_def)

lemma series_inv_snoc:
  assumes "series_inv xs" "xs \<noteq> []" "in_bounds q" "improves (last xs) q"
  shows "series_inv (xs @ [q])"
proof -
  have b: "\<forall>p \<in> set (xs @ [q]). in_bounds p"
    using assms(1,3) by (simp add: series_inv_def)
  have m: "improves ((xs @ [q]) ! i) ((xs @ [q]) ! Suc i)" if i: "Suc i < length (xs @ [q])" for i
  proof (cases "Suc i < length xs")
    case True
    with assms(1) have "improves (xs ! i) (xs ! Suc i)" by (simp add: series_inv_def)
    with True show ?thesis by (simp add: nth_append)
  next
    case False
    with i have e: "Suc i = length xs" by simp
    then have "xs ! i = last xs" using assms(2) by (simp add: last_conv_nth flip: e)
    with e assms(4) show ?thesis by (simp add: nth_append flip: e)
  qed
  from b m show ?thesis unfolding series_inv_def by blast
qed

lemma series_inv_last: "series_inv xs \<Longrightarrow> xs \<noteq> [] \<Longrightarrow> in_bounds (last xs)"
  by (simp add: series_inv_def)

lemma series_inv_updater:
  assumes "series_inv xs" "valid_draws d"
  shows "series_inv (updater e d xs)"
proof -
  obtain r1 r2 r3 where d: "d = (r1, r2, r3)" by (cases d)
  with assms(2) have "0 \<le> r1" "0 \<le> r2" "0 \<le> r3" by (simp_all add: valid_draw_def)
  then have nn: "0 \<le> r1 * 0.08" "0 \<le> r2 * 0.06" "0 \<le> r3 * 0.15" by simp_all
  show ?thesis
  proof (cases "xs = []")
    case True
    then have "previous xs = None" by (simp add: previous_def)
    with True show ?thesis
      unfolding d updater_emission
      using emission_seed_in_bounds [OF nn(1,2)] by (simp add: series_inv_snoc_first)
  next
    case False
    then have p: "previous xs = Some (last xs)" by (simp add: previous_def)
    have l: "in_bounds (last xs)" using assms(1) False by (rule series_inv_last)
    show ?thesis
      unfolding d updater_emission p
      using assms(1) False emission_next_in_bounds [OF nn(1,2) l]
        emission_next_improves [OF nn l]
      by (rule series_inv_snoc)
  qed
qed

lemma trainingData_intervalCallback:
  "trainingData (intervalCallback h d s) =
     (case intervals s h of None \<Rightarrow> trainingData s
      | Some c \<Rightarrow> updater (Suc (currentEpoch c)) d (trainingData s))"
  by (simp add: intervalCallback_def Let_def split: option.split)

lemma series_inv_step:
  assumes "series_inv (trainingData s)" "valid_event ev"
  shows "series_inv (trainingData (step ev s))"
proof (cases ev)
  case Start
  then show ?thesis by (simp add: simulateTraining_def startRun_fields series_inv_Nil)
next
  case (Tick h d)
  with assms show ?thesis
    by (simp add: trainingData_intervalCallback series_inv_updater split: option.split)
qed

lemma series_inv_run:
  "series_inv (trainingData s) \<Longrightarrow> \<forall>ev \<in> set evs. valid_event ev \<Longrightarrow>
   series_inv (trainingData (run evs s))"
proof (induction evs arbitrary: s)
  case Nil
  then show ?case by simp
next
  case (Cons ev evs)
  from Cons.prems have "series_inv (trainingData (step ev s))"
    by (intro series_inv_step) simp_all
  with Cons.prems(2) show ?case by (simp add: Cons.IH)
qed

lemma series_inv_init: "series_inv (trainingData init_app)"
  by (simp add: init_app_def series_inv_Nil)

lemmas sim_eval =
  simulateTraining_def startRun_def init_app_def intervalCallback_def updater_def Let_def

text \<open>
  Claim C3. Whatever the draws of \<^verbatim>\<open>Math.random()\<close> are, and however calls of
  \<^verbatim>\<open>simulateTraining\<close> and firings of intervals follow one another after the first render,
  every recorded point \<open>p\<close> has \<open>0.45 \<le> accuracy \<le> 0.98\<close>, \<open>0.42 \<le> val_accuracy \<le> 0.95\<close>,
  \<open>loss \<ge> 0.10\<close> and \<open>val_loss = loss * 1.1\<close>.
\<close>

theorem emitted_points_in_bounds:
  assumes "\<forall>ev \<in> set evs. valid_event ev"
    and "p \<in> set (trainingData (run evs init_app))"
  shows "0.45 \<le> accuracy p \<and> accuracy p \<le> 0.98 \<and>
         0.42 \<le> val_accuracy p \<and> val_accuracy p \<le> 0.95 \<and>
         loss p \<ge> 0.10 \<and> val_loss p = loss p * 1.1"
proof -
  have "series_inv (trainingData (run evs init_app))"
    using series_inv_init assms(1) by (rule series_inv_run)
  with assms(2) have "in_bounds p" by (simp add: series_inv_def)
  then show ?thesis unfolding in_bounds_def .
qed

text \<open>The point recorded by the first tick, with draws \<open>1/2\<close>: it carries the epoch 2.\<close>

theorem emitted_points_in_bounds_witness:
  "valid_event Start \<and> valid_event (Tick 1 (1/2, 1/2, 1/2)) \<and>
   trainingData (run [Start, Tick 1 (1/2, 1/2, 1/2)] init_app) ! 0
     \<in> set (trainingData (run [Start, Tick 1 (1/2, 1/2, 1/2)] init_app)) \<and>
   epoch (trainingData (run [Start, Tick 1 (1/2, 1/2, 1/2)] init_app) ! 0) = 2 \<and>
   0.45 \<le> accuracy (trainingData (run [Start, Tick 1 (1/2, 1/2, 1/2)] init_app) ! 0) \<and>
   accuracy (trainingData (run [Start, Tick 1 (1/2, 1/2, 1/2)] init_app) ! 0) \<le> 0.98 \<and>
   0.42 \<le> val_accuracy (trainingData (run [Start, Tick 1 (1/2, 1/2, 1/2)] init_app) ! 0) \<and>
   val_accuracy (trainingData (run [Start, Tick 1 (1/2, 1/2, 1/2)] init_app) ! 0) \<le> 0.95 \<and>
   loss (trainingData (run [Start, Tick 1 (1/2, 1/2, 1/2)] init_app) ! 0) \<ge> 0.10 \<and>
   val_loss (trainingData (run [Start, Tick 1 (1/2, 1/2, 1/2)] init_app) ! 0) =
     loss (trainingData (run [Start, Tick 1 (1/2, 1/2, 1/2)] init_app) ! 0) * 1.1"
proof -
  let ?evs = "[Start, Tick 1 (1/2, 1/2, 1/2)]"
  let ?p = "trainingData (run ?evs init_app) ! 0"
  have v: "\<forall>ev \<in> set ?evs. valid_event ev" by (simp add: valid_draw_def)
  have "0 < length (trainingData (run ?evs init_app))" by (simp add: sim_eval)
  then have m: "?p \<in> set (trainingData (run ?evs init_app))" by (rule nth_mem)
  have e: "epoch ?p = 2" by (simp add: sim_eval)
  have v': "valid_event Start \<and> valid_event (Tick 1 (1/2, 1/2, 1/2))" using v by simp
  from emitted_points_in_bounds [OF v m] v' m e show ?thesis by blast
qed

text \<open>
  Claim C10. For every two points recorded one after the other (at the positions \<open>i\<close> and
  \<open>i + 1\<close> of the series), the accuracy and the validation accuracy have not decreased and
  the loss has not increased, whatever the draws are.
\<close>

theorem consecutive_points_monotone:
  assumes "\<forall>ev \<in> set evs. valid_event ev"
    and "Suc i < length (trainingData (run evs init_app))"
  shows "accuracy (trainingData (run evs init_app) ! i)
           \<le> accuracy (trainingData (run evs init_app) ! Suc i) \<and>
         val_accuracy (trainingData (run evs init_app) ! i)
           \<le> val_accuracy (trainingData (run evs init_app) ! Suc i) \<and>
         loss (trainingData (run evs init_app) ! Suc i)
           \<le> loss (trainingData (run evs init_app) ! i)"
proof -
  have "series_inv (trainingData (run evs init_app))"
    using series_inv_init assms(1) by (rule series_inv_run)
  with assms(2) have "improves (trainingData (run evs init_app) ! i)
      (trainingData (run evs init_app) ! Suc i)"
    by (simp add: series_inv_def)
  then show ?thesis unfolding improves_def .
qed

text \<open>The first two points of a run with draws \<open>1/2\<close>.\<close>

theorem consecutive_points_monotone_witness:
  "valid_event Start \<and> valid_event (Tick 1 (1/2, 1/2, 1/2)) \<and>
   Suc 0 < length (trainingData (run [Start, Tick 1 (1/2, 1/2, 1/2), Tick 1 (1/2, 1/2, 1/2)] init_app)) \<and>
   accuracy (trainingData (run [Start, Tick 1 (1/2, 1/2, 1/2), Tick 1 (1/2, 1/2, 1/2)] init_app) ! 0)
     \<le> accuracy (trainingData (run [Start, Tick 1 (1/2, 1/2, 1/2), Tick 1 (1/2, 1/2, 1/2)] init_app) ! Suc 0) \<and>
   val_accuracy (trainingData (run [Start, Tick 1 (1/2, 1/2, 1/2), Tick 1 (1/2, 1/2, 1/2)] init_app) ! 0)
     \<le> val_accuracy (trainingData (run [Start, Tick 1 (1/2, 1/2, 1/2), Tick 1 (1/2, 1/2, 1/2)] init_app) ! Suc 0) \<and>
   loss (trainingData (run [Start, Tick 1 (1/2, 1/2, 1/2), Tick 1 (1/2, 1/2, 1/2)] init_app) ! Suc 0)
     \<le> loss (trainingData (run [Start, Tick 1 (1/2, 1/2, 1/2), Tick 1 (1/2, 1/2, 1/2)] init_app) ! 0)"
proof -
  let ?evs = "[Start, Tick 1 (1/2, 1/2, 1/2), Tick 1 (1/2, 1/2, 1/2)]"
  have v: "\<forall>ev \<in> set ?evs. valid_event ev" by (simp add: valid_draw_def)
  have l: "Suc 0 < length (trainingData (run ?evs init_app))" by (simp add: sim_eval)
  have v': "valid_event Start \<and> valid_event (Tick 1 (1/2, 1/2, 1/2))" using v by simp
  from consecutive_points_monotone [OF v l] v' l show ?thesis by blast
qed

subsection \<open>Runs started through the start button\<close>










subsection \<open>A run in progress\<close>

lemma length_intervalCallback:
  "length (trainingData (intervalCallback h d s)) =
     (case intervals s h of None \<Rightarrow> length (trainingData s)
      | Some c \<Rightarrow> Suc (length (trainingData s)))"
  by (simp add: trainingData_intervalCallback length_updater split: option.split)

lemma running_not_stopped:
  assumes "isTraining s"
  shows "\<not> (length (trainingData (step ev s)) = length (trainingData s) \<and> \<not> isTraining (step ev s))"
proof (cases ev)
  case Start
  then show ?thesis by (simp add: simulateTraining_def startRun_fields)
next
  case (Tick h d)
  show ?thesis
  proof (cases "intervals s h")
    case None
    with Tick assms show ?thesis by (simp add: intervalCallback_cleared)
  next
    case (Some c)
    with Tick show ?thesis by (simp add: length_intervalCallback)
  qed
qed

text \<open>
  Claim C6 as stated fails: the simulator has no stop operation. After the third point of a
  run the component is training; the next firing of the interval records the fourth point
  and leaves the component training; and no event of the simulator leads to a state with
  exactly three points that is marked not training.
\<close>

theorem no_stop_counterexample:
  "isTraining (ticks 1 [(1/2, 1/2, 1/2), (1/2, 1/2, 1/2), (1/2, 1/2, 1/2)] (simulateTraining init_app)) \<and>
   length (trainingData
     (ticks 1 [(1/2, 1/2, 1/2), (1/2, 1/2, 1/2), (1/2, 1/2, 1/2)] (simulateTraining init_app))) = 3 \<and>
   isTraining (step (Tick 1 (1/2, 1/2, 1/2))
     (ticks 1 [(1/2, 1/2, 1/2), (1/2, 1/2, 1/2), (1/2, 1/2, 1/2)] (simulateTraining init_app))) \<and>
   length (trainingData (step (Tick 1 (1/2, 1/2, 1/2))
     (ticks 1 [(1/2, 1/2, 1/2), (1/2, 1/2, 1/2), (1/2, 1/2, 1/2)] (simulateTraining init_app)))) = 4 \<and>
   \<not> (\<exists>ev. length (trainingData (step ev
          (ticks 1 [(1/2, 1/2, 1/2), (1/2, 1/2, 1/2), (1/2, 1/2, 1/2)] (simulateTraining init_app)))) = 3 \<and>
        \<not> isTraining (step ev
          (ticks 1 [(1/2, 1/2, 1/2), (1/2, 1/2, 1/2), (1/2, 1/2, 1/2)] (simulateTraining init_app))))"
proof -
  let ?s3 = "ticks 1 [(1/2, 1/2, 1/2), (1/2, 1/2, 1/2), (1/2, 1/2, 1/2)] (simulateTraining init_app)"
  have t: "isTraining ?s3" by (simp add: sim_eval)
  have l: "length (trainingData ?s3) = 3" by (simp add: sim_eval)
  have t4: "isTraining (step (Tick 1 (1/2, 1/2, 1/2)) ?s3)" by (simp add: sim_eval)
  have l4: "length (trainingData (step (Tick 1 (1/2, 1/2, 1/2)) ?s3)) = 4" by (simp add: sim_eval)
  have "\<not> (length (trainingData (step ev ?s3)) = 3 \<and> \<not> isTraining (step ev ?s3))" for ev
    using running_not_stopped [OF t, of ev] unfolding l .
  with t l t4 l4 show ?thesis by blast
qed

text \<open>
  Claim C6, amended. For every \<open>k < N\<close>, after the \<open>k\<close>-th point of a run of \<open>N\<close> epochs
  exactly \<open>k\<close> points are recorded, the component is still marked training and the interval
  of the run is still set; its next firing records point \<open>k + 1\<close>; and no event of the
  simulator (a call of \<^verbatim>\<open>simulateTraining\<close>, a firing of an interval) leaves exactly \<open>k\<close>
  points recorded and the component marked not training.
\<close>

theorem run_cannot_be_stopped:
  assumes "k < N" and "length ds = k"
  shows "isTraining (ticks (nextHandle s) ds (startRun N s)) \<and>
         length (trainingData (ticks (nextHandle s) ds (startRun N s))) = k \<and>
         intervals (ticks (nextHandle s) ds (startRun N s)) (nextHandle s) \<noteq> None \<and>
         length (trainingData
           (intervalCallback (nextHandle s) d (ticks (nextHandle s) ds (startRun N s)))) = Suc k \<and>
         (\<forall>ev. \<not> (length (trainingData (step ev (ticks (nextHandle s) ds (startRun N s)))) = k \<and>
                   \<not> isTraining (step ev (ticks (nextHandle s) ds (startRun N s)))))"
proof -
  let ?sk = "ticks (nextHandle s) ds (startRun N s)"
  have t: "isTraining ?sk" by (rule run_prefix(2) [OF assms])
  have "length (map epoch (trainingData ?sk)) = length [2 ..< Suc (Suc k)]"
    by (simp only: run_prefix(3) [OF assms])
  then have "length (trainingData ?sk) = Suc (Suc k) - 2"
    by (simp only: length_map length_upt)
  then have l: "length (trainingData ?sk) = k" by simp
  have i: "intervals ?sk (nextHandle s) \<noteq> None" by (simp add: run_prefix(1) [OF assms])
  then have n: "length (trainingData (intervalCallback (nextHandle s) d ?sk)) = Suc k"
    by (auto simp: length_intervalCallback l)
  have "\<not> (length (trainingData (step ev ?sk)) = k \<and> \<not> isTraining (step ev ?sk))" for ev
    using running_not_stopped [OF t, of ev] unfolding l .
  with t l i n show ?thesis by blast
qed

text \<open>Three ticks into the run of fifteen epochs that the source starts.\<close>

theorem run_cannot_be_stopped_witness:
  "(3::nat) < 15 \<and> length (replicate 3 ((1/2, 1/2, 1/2)::draws)) = 3 \<and>
   isTraining (ticks 1 (replicate 3 (1/2, 1/2, 1/2)) (simulateTraining init_app)) \<and>
   length (trainingData (ticks 1 (replicate 3 (1/2, 1/2, 1/2)) (simulateTraining init_app))) = 3 \<and>
   length (trainingData (intervalCallback 1 (1/2, 1/2, 1/2)
     (ticks 1 (replicate 3 (1/2, 1/2, 1/2)) (simulateTraining init_app)))) = Suc 3"
proof -
  have k: "(3::nat) < 15" by simp
  have l: "length (replicate 3 ((1/2, 1/2, 1/2)::draws)) = 3" by simp
  have h: "nextHandle init_app = 1" by (simp add: init_app_def)
  have s: "simulateTraining init_app = startRun 15 init_app" by (simp add: simulateTraining_def)
  from run_cannot_be_stopped [OF k l, of init_app "(1/2, 1/2, 1/2)"] k l
  show ?thesis unfolding h s by blast
qed

text \<open>
  Claim C8. In every state \<open>s\<close>, whatever series it holds, \<^verbatim>\<open>simulateTraining\<close> empties the
  series; after the first tick of the new run the series has length exactly 1, not the prior
  length plus 1; and after the first firing of any interval \<open>h\<close> the length is at most 1.
\<close>

theorem restart_resets_series:
  "trainingData (simulateTraining s) = [] \<and>
   length (trainingData (intervalCallback (nextHandle s) d (simulateTraining s))) = 1 \<and>
   length (trainingData (intervalCallback h d (simulateTraining s))) \<le> 1"
proof -
  have 1: "trainingData (simulateTraining s) = []"
    by (simp add: simulateTraining_def startRun_fields)
  have i: "intervals (simulateTraining s) (nextHandle s) = Some \<lparr>currentEpoch = 1, totalEpochs = 15\<rparr>"
    by (simp add: simulateTraining_def startRun_fields)
  have 2: "length (trainingData (intervalCallback (nextHandle s) d (simulateTraining s))) = 1"
    by (simp add: length_intervalCallback i 1)
  have 3: "length (trainingData (intervalCallback h d (simulateTraining s))) \<le> 1"
    by (simp add: length_intervalCallback 1 split: option.split)
  from 1 2 3 show ?thesis by blast
qed

text \<open>A restart over a series of two points: length 1 after the first tick, not 3.\<close>

theorem restart_resets_series_witness:
  "length (trainingData (run [Start, Tick 1 (1/2, 1/2, 1/2), Tick 1 (1/2, 1/2, 1/2)] init_app)) = 2 \<and>
   nextHandle (run [Start, Tick 1 (1/2, 1/2, 1/2), Tick 1 (1/2, 1/2, 1/2)] init_app) = 2 \<and>
   length (trainingData (intervalCallback 2 (1/2, 1/2, 1/2)
     (simulateTraining (run [Start, Tick 1 (1/2, 1/2, 1/2), Tick 1 (1/2, 1/2, 1/2)] init_app)))) = 1"
proof -
  let ?s = "run [Start, Tick 1 (1/2, 1/2, 1/2), Tick 1 (1/2, 1/2, 1/2)] init_app"
  have l: "length (trainingData ?s) = 2" by (simp add: sim_eval)
  have n: "nextHandle ?s = 2" by (simp add: sim_eval)
  from restart_resets_series [of ?s "(1/2, 1/2, 1/2)" 2] l n show ?thesis by simp
qed

section \<open>Properties of the gateway\<close>

subsection \<open>The two operations, by the outcome of the call\<close>

lemma analyzeClassification_failed:
  assumes "svc (getAI env) (classification_request imageData dataset architecture) = Inl cause"
  shows "analyzeClassification JSON_parse svc env imageData dataset architecture w =
           (Inl (CallFailed cause),
            w\<lparr>calls := calls w @ [(getAI env, classification_request imageData dataset architecture)],
              console := console w @ [CallFailed cause]\<rparr>)"
  using assms
  by (simp add: analyzeClassification_def generateContent_def catch_rethrow_def Let_def)

lemma analyzeClassification_answered:
  assumes "svc (getAI env) (classification_request imageData dataset architecture) = Inr response"
  shows "analyzeClassification JSON_parse svc env imageData dataset architecture w =
           (case JSON_parse (toString (text response)) of
              None \<Rightarrow>
                (Inl SyntaxError,
                 w\<lparr>calls := calls w @ [(getAI env, classification_request imageData dataset architecture)],
                   console := console w @ [SyntaxError]\<rparr>)
            | Some v \<Rightarrow>
                (Inr v,
                 w\<lparr>calls := calls w @ [(getAI env, classification_request imageData dataset architecture)]\<rparr>))"
  using assms
  by (simp add: analyzeClassification_def generateContent_def catch_rethrow_def Let_def
      split: option.split)

lemma generateFinalReport_failed:
  assumes "svc (getAI env) (report_request summary) = Inl cause"
  shows "generateFinalReport svc env summary w =
           (Inl (CallFailed cause), w\<lparr>calls := calls w @ [(getAI env, report_request summary)]\<rparr>)"
  using assms by (simp add: generateFinalReport_def generateContent_def Let_def)

lemma generateFinalReport_answered:
  assumes "svc (getAI env) (report_request summary) = Inr response"
  shows "generateFinalReport svc env summary w =
           (Inr (text response), w\<lparr>calls := calls w @ [(getAI env, report_request summary)]\<rparr>)"
  using assms by (simp add: generateFinalReport_def generateContent_def Let_def)

subsection \<open>Failures of the call\<close>

text \<open>
  Claim C5. Whenever the call of the service that \<^verbatim>\<open>analyzeClassification\<close> makes fails
  with a cause, the operation rejects with exactly this cause and returns no value, and it
  has called the service exactly once: the calls recorded afterwards are the calls recorded
  before and the one request of the operation. The same holds, on its own, whenever the call
  that \<^verbatim>\<open>generateFinalReport\<close> makes fails. Neither statement supposes anything about
  the other operation.
\<close>

theorem call_failure_propagates:
  "(svc (getAI env) (classification_request imageData dataset architecture) = Inl cause \<longrightarrow>
      fst (analyzeClassification JSON_parse svc env imageData dataset architecture w)
        = Inl (CallFailed cause) \<and>
      calls (snd (analyzeClassification JSON_parse svc env imageData dataset architecture w))
        = calls w @ [(getAI env, classification_request imageData dataset architecture)]) \<and>
   (svc (getAI env) (report_request summary) = Inl cause' \<longrightarrow>
      fst (generateFinalReport svc env summary w) = Inl (CallFailed cause') \<and>
      calls (snd (generateFinalReport svc env summary w))
        = calls w @ [(getAI env, report_request summary)])"
  by (simp add: analyzeClassification_failed generateFinalReport_failed)

text \<open>
  A service that fails on requests with a list of parts (those of
  \<^verbatim>\<open>analyzeClassification\<close>) only, and a service that fails on plain requests (those of
  \<^verbatim>\<open>generateFinalReport\<close>) only, each called in a world with no earlier call.
\<close>

theorem call_failure_propagates_witness:
  "fst (analyzeClassification sample_parse
          (\<lambda>ai req. case contents req of Parts ps \<Rightarrow> Inl ''network unreachable''
                      | Plain t \<Rightarrow> Inr \<lparr>text = Some t\<rparr>)
          Map.empty sample_image ''cats-vs-dogs'' ''Conv2D -> Dense'' w0)
     = Inl (CallFailed ''network unreachable'') \<and>
   length (calls (snd (analyzeClassification sample_parse
          (\<lambda>ai req. case contents req of Parts ps \<Rightarrow> Inl ''network unreachable''
                      | Plain t \<Rightarrow> Inr \<lparr>text = Some t\<rparr>)
          Map.empty sample_image ''cats-vs-dogs'' ''Conv2D -> Dense'' w0))) = 1 \<and>
   fst (generateFinalReport
          (\<lambda>ai req. case contents req of Parts ps \<Rightarrow> Inr \<lparr>text = Some sample_text\<rparr>
                      | Plain t \<Rightarrow> Inl ''credential rejected'')
          Map.empty ''I learned about dropout and augmentation'' w0)
     = Inl (CallFailed ''credential rejected'') \<and>
   length (calls (snd (generateFinalReport
          (\<lambda>ai req. case contents req of Parts ps \<Rightarrow> Inr \<lparr>text = Some sample_text\<rparr>
                      | Plain t \<Rightarrow> Inl ''credential rejected'')
          Map.empty ''I learned about dropout and augmentation'' w0))) = 1"
proof -
  let ?c = "(\<lambda>ai req. case contents req of Parts ps \<Rightarrow> Inl ''network unreachable''
                      | Plain t \<Rightarrow> Inr \<lparr>text = Some t\<rparr>) :: string service"
  let ?r = "(\<lambda>ai req. case contents req of Parts ps \<Rightarrow> Inr \<lparr>text = Some sample_text\<rparr>
                      | Plain t \<Rightarrow> Inl ''credential rejected'') :: string service"
  have a: "?c (getAI Map.empty) (classification_request sample_image ''cats-vs-dogs'' ''Conv2D -> Dense'')
      = Inl ''network unreachable''" by (simp add: classification_request_def)
  have b: "?r (getAI Map.empty) (report_request ''I learned about dropout and augmentation'')
      = Inl ''credential rejected''" by (simp add: report_request_def)
  from a call_failure_propagates [where svc = ?c and env = Map.empty and imageData = sample_image
      and dataset = "''cats-vs-dogs''" and architecture = "''Conv2D -> Dense''"
      and cause = "''network unreachable''" and JSON_parse = sample_parse and w = w0]
  have 1: "fst (analyzeClassification sample_parse ?c Map.empty sample_image
          ''cats-vs-dogs'' ''Conv2D -> Dense'' w0) = Inl (CallFailed ''network unreachable'') \<and>
      calls (snd (analyzeClassification sample_parse ?c Map.empty sample_image
          ''cats-vs-dogs'' ''Conv2D -> Dense'' w0))
        = calls w0 @ [(getAI Map.empty,
            classification_request sample_image ''cats-vs-dogs'' ''Conv2D -> Dense'')]"
    by blast
  from b call_failure_propagates [where svc = ?r and env = Map.empty
      and summary = "''I learned about dropout and augmentation''"
      and cause' = "''credential rejected''" and w = w0]
  have 2: "fst (generateFinalReport ?r Map.empty ''I learned about dropout and augmentation'' w0)
        = Inl (CallFailed ''credential rejected'') \<and>
      calls (snd (generateFinalReport ?r Map.empty ''I learned about dropout and augmentation'' w0))
        = calls w0 @ [(getAI Map.empty, report_request ''I learned about dropout and augmentation'')]"
    by blast
  from 1 2 show ?thesis by (simp add: w0_def)
qed

subsection \<open>Answers that do not have the declared shape\<close>

text \<open>
  Claim C4 as stated fails: when the service answers with a JSON text that lacks the
  required member \<^verbatim>\<open>features\<close>, \<^verbatim>\<open>analyzeClassification\<close> returns the parsed value
  although it does not conform to the declared shape.
\<close>

theorem missing_features_accepted:
  "fst (analyzeClassification sample_parse (\<lambda>ai req. Inr \<lparr>text = Some sample_text\<rparr>) Map.empty
          sample_image ''cats-vs-dogs'' ''Conv2D -> Dense'' w0) = Inr sample_value \<and>
   \<not> conforms declared_shape sample_value"
proof -
  let ?svc = "(\<lambda>ai req. Inr \<lparr>text = Some sample_text\<rparr>) :: string service"
  have a: "?svc (getAI Map.empty) (classification_request sample_image ''cats-vs-dogs'' ''Conv2D -> Dense'')
      = Inr \<lparr>text = Some sample_text\<rparr>" by simp
  have p: "sample_parse (toString (text \<lparr>text = Some sample_text\<rparr>)) = Some sample_value"
    by (simp add: sample_parse_def)
  have 1: "fst (analyzeClassification sample_parse ?svc Map.empty
          sample_image ''cats-vs-dogs'' ''Conv2D -> Dense'' w0) = Inr sample_value"
    unfolding analyzeClassification_answered [OF a] p by simp
  have 2: "\<not> conforms declared_shape sample_value"
    by (simp add: declared_shape_def sample_value_def)
  from 1 2 show ?thesis by blast
qed

text \<open>
  Claim C4, amended. When the service answers, \<^verbatim>\<open>analyzeClassification\<close> rejects with the
  \<^verbatim>\<open>SyntaxError\<close> of \<^verbatim>\<open>JSON.parse\<close> if the text of the answer is no JSON text; this
  error is never the failure of a call; and if the text is a JSON text, the operation
  returns the parsed value as it is, with no check against the declared shape and no value
  put in the place of a missing member.
\<close>

theorem classify_checks_syntax_only:
  assumes "svc (getAI env) (classification_request imageData dataset architecture) = Inr response"
  shows "(JSON_parse (toString (text response)) = None \<longrightarrow>
            fst (analyzeClassification JSON_parse svc env imageData dataset architecture w)
              = Inl SyntaxError) \<and>
         (\<forall>v. JSON_parse (toString (text response)) = Some v \<longrightarrow>
            fst (analyzeClassification JSON_parse svc env imageData dataset architecture w)
              = Inr v) \<and>
         (\<forall>cause. fst (analyzeClassification JSON_parse svc env imageData dataset architecture w)
              \<noteq> Inl (CallFailed cause))"
  using assms by (simp add: analyzeClassification_answered split: option.split)

text \<open>A text that is no JSON text, an answer without text, and the answer without \<^verbatim>\<open>features\<close>.\<close>

theorem classify_checks_syntax_only_witness:
  "fst (analyzeClassification sample_parse (\<lambda>ai req. Inr \<lparr>text = Some ''not json''\<rparr>) Map.empty
          sample_image ''cats-vs-dogs'' ''Conv2D -> Dense'' w0) = Inl SyntaxError \<and>
   fst (analyzeClassification sample_parse (\<lambda>ai req. Inr \<lparr>text = None\<rparr>) Map.empty
          sample_image ''cats-vs-dogs'' ''Conv2D -> Dense'' w0) = Inl SyntaxError \<and>
   fst (analyzeClassification sample_parse (\<lambda>ai req. Inr \<lparr>text = Some sample_text\<rparr>) Map.empty
          sample_image ''cats-vs-dogs'' ''Conv2D -> Dense'' w0) = Inr sample_value"
proof -
  let ?req = "classification_request sample_image ''cats-vs-dogs'' ''Conv2D -> Dense''"
  let ?bad = "(\<lambda>ai req. Inr \<lparr>text = Some ''not json''\<rparr>) :: string service"
  let ?none = "(\<lambda>ai req. Inr \<lparr>text = None\<rparr>) :: string service"
  let ?good = "(\<lambda>ai req. Inr \<lparr>text = Some sample_text\<rparr>) :: string service"
  have a: "?bad (getAI Map.empty) ?req = Inr \<lparr>text = Some ''not json''\<rparr>" by simp
  have b: "?none (getAI Map.empty) ?req = Inr \<lparr>text = None\<rparr>" by simp
  have c: "?good (getAI Map.empty) ?req = Inr \<lparr>text = Some sample_text\<rparr>" by simp
  have pa: "sample_parse (toString (text \<lparr>text = Some ''not json''\<rparr>)) = None"
    by (simp add: sample_parse_def sample_text_def)
  have pb: "sample_parse (toString (text \<lparr>text = None\<rparr>)) = None"
    by (simp add: sample_parse_def sample_text_def)
  have pc: "sample_parse (toString (text \<lparr>text = Some sample_text\<rparr>)) = Some sample_value"
    by (simp add: sample_parse_def)
  from classify_checks_syntax_only [OF a, where JSON_parse = sample_parse and w = w0] pa
  have 1: "fst (analyzeClassification sample_parse ?bad Map.empty
          sample_image ''cats-vs-dogs'' ''Conv2D -> Dense'' w0) = Inl SyntaxError" by blast
  from classify_checks_syntax_only [OF b, where JSON_parse = sample_parse and w = w0] pb
  have 2: "fst (analyzeClassification sample_parse ?none Map.empty
          sample_image ''cats-vs-dogs'' ''Conv2D -> Dense'' w0) = Inl SyntaxError" by blast
  from classify_checks_syntax_only [OF c, where JSON_parse = sample_parse and w = w0] pc
  have 3: "fst (analyzeClassification sample_parse ?good Map.empty
          sample_image ''cats-vs-dogs'' ''Conv2D -> Dense'' w0) = Inr sample_value" by blast
  from 1 2 3 show ?thesis by blast
qed

subsection \<open>The text of a report\<close>

text \<open>
  Claim C9 as stated fails: \<^verbatim>\<open>generateFinalReport\<close> returns an empty text, and an answer
  without text, as a successful result.
\<close>

theorem empty_report_returned:
  "fst (generateFinalReport (\<lambda>ai req. Inr \<lparr>text = Some ''''\<rparr>) Map.empty
          ''I learned about dropout and augmentation'' w0) = Inr (Some '''') \<and>
   fst (generateFinalReport (\<lambda>ai req. Inr \<lparr>text = None\<rparr>) Map.empty
          ''I learned about dropout and augmentation'' w0) = Inr None"
proof -
  let ?e = "(\<lambda>ai req. Inr \<lparr>text = Some ''''\<rparr>) :: string service"
  let ?u = "(\<lambda>ai req. Inr \<lparr>text = None\<rparr>) :: string service"
  have a: "?e (getAI Map.empty) (report_request ''I learned about dropout and augmentation'')
      = Inr \<lparr>text = Some ''''\<rparr>" by simp
  have b: "?u (getAI Map.empty) (report_request ''I learned about dropout and augmentation'')
      = Inr \<lparr>text = None\<rparr>" by simp
  show ?thesis
    unfolding generateFinalReport_answered [OF a] generateFinalReport_answered [OF b] by simp
qed

text \<open>
  Claim C9, amended. For every reflection text and every answer of the service,
  \<^verbatim>\<open>generateFinalReport\<close> returns the text of the answer unchanged, whatever it is, after
  exactly one call of the service: it performs no validation.
\<close>

theorem report_returned_unchecked:
  assumes "svc (getAI env) (report_request summary) = Inr response"
  shows "fst (generateFinalReport svc env summary w) = Inr (text response) \<and>
         calls (snd (generateFinalReport svc env summary w))
           = calls w @ [(getAI env, report_request summary)]"
  using assms by (simp add: generateFinalReport_answered)

text \<open>A service that answers with a text that is not empty.\<close>

theorem report_returned_unchecked_witness:
  "fst (generateFinalReport (\<lambda>ai req. Inr \<lparr>text = Some ''The student has shown ...''\<rparr>) Map.empty
          ''I learned about dropout and augmentation'' w0) = Inr (Some ''The student has shown ...'') \<and>
   length (calls (snd (generateFinalReport (\<lambda>ai req. Inr \<lparr>text = Some ''The student has shown ...''\<rparr>)
          Map.empty ''I learned about dropout and augmentation'' w0))) = 1"
proof -
  let ?svc = "(\<lambda>ai req. Inr \<lparr>text = Some ''The student has shown ...''\<rparr>) :: string service"
  have a: "?svc (getAI Map.empty) (report_request ''I learned about dropout and augmentation'')
      = Inr \<lparr>text = Some ''The student has shown ...''\<rparr>" by simp
  from report_returned_unchecked [OF a, where w = w0]
  show ?thesis by (simp add: w0_def)
qed

end
